theory Spec2Isabelle
  imports Main "HOL-Library.Word"
begin

section \<open>The ttstream transport of kitex: pipe, stream IO and transport engine\<close>

text \<open>
  A shallow embedding of \<^verbatim>\<open>container/pipe.go\<close>, \<^verbatim>\<open>ttstream/stream_io.go\<close> and
  \<^verbatim>\<open>ttstream/transport.go\<close>.  Every operation is a function from the state before the call
  to an outcome and the state after it.  Go's three ways of not returning a value are kept
  apart: a panic, a goroutine parked on a channel or condition variable that nobody else
  in the model will signal, and a loop that spins forever (the value \<open>None\<close> of a
  \<^theory_text>\<open>partial_function\<close>).
\<close>

subsection \<open>Errors, outcomes, machine integers\<close>

type_synonym int32 = "32 word"
  \<comment> \<open>Go's \<^verbatim>\<open>int32\<close>: \<open>+\<close> wraps around, \<open>sint\<close> reads the two's complement value.\<close>

type_synonym bytes = "8 word list"

datatype error =
    io_EOF                \<comment> \<open>\<^verbatim>\<open>io.EOF\<close>\<close>
  | ErrorString string    \<comment> \<open>\<^verbatim>\<open>fmt.Errorf(...)\<close>, \<^verbatim>\<open>errors.New(...)\<close> and the errors of collaborators\<close>

definition errors_Is :: "error \<Rightarrow> error \<Rightarrow> bool" where
  \<comment> \<open>\<^verbatim>\<open>errors.Is\<close> on errors that wrap nothing\<close>
  "errors_Is err target = (err = target)"

datatype 'a outcome =
    Returns 'a            \<comment> \<open>the call returns\<close>
  | Panics string         \<comment> \<open>a run-time panic with its message\<close>
  | Blocks                \<comment> \<open>the goroutine is parked and only another goroutine can wake it\<close>

subsection \<open>Queue\<close>

text \<open>
  Modelled from the spec: the type \<^verbatim>\<open>Queue[Item]\<close> behind the pipe (\<^verbatim>\<open>NewQueueWithLocker\<close>,
  \<^verbatim>\<open>Add\<close>, \<^verbatim>\<open>Get\<close>, \<^verbatim>\<open>Size\<close>) is not among the sources.  The spec calls the pipe an
  unbounded FIFO backed by a queue, so the queue is a list: \<^verbatim>\<open>Add\<close> appends at the tail,
  \<^verbatim>\<open>Get\<close> takes the head and reports \<^verbatim>\<open>ok = false\<close> on an empty queue.
\<close>

type_synonym 'a Queue = "'a list"

definition NewQueueWithLocker :: "'a Queue" where
  "NewQueueWithLocker = []"

definition Add :: "'a Queue \<Rightarrow> 'a \<Rightarrow> 'a Queue" where
  "Add q item = q @ [item]"

definition Get :: "'a Queue \<Rightarrow> 'a option \<times> 'a Queue" where
  "Get q = (case q of [] \<Rightarrow> (None, []) | v # q' \<Rightarrow> (Some v, q'))"

definition Size :: "'a Queue \<Rightarrow> nat" where
  "Size q = length q"

subsection \<open>Pipe\<close>

record 'a Pipe =
  queue :: "'a Queue"
  closed :: bool

definition PipeEOF :: error where
  "PipeEOF = io_EOF"

definition NewPipe :: "'a Pipe" where
  "NewPipe = \<lparr>queue = NewQueueWithLocker, closed = False\<rparr>"

text \<open>
  The \<^verbatim>\<open>for i := 0; i < len(items); i++\<close> loop of \<^verbatim>\<open>Read\<close>.  The first argument counts the
  iterations left, the second is \<^verbatim>\<open>i\<close>, the last the items written to \<^verbatim>\<open>items[0..i)\<close> so
  far (\<^verbatim>\<open>n\<close> is their number).  \<^verbatim>\<open>Read\<close> only writes to its buffer, so the buffer is
  given by its length and the written prefix is returned.  After \<^verbatim>\<open>runtime.Gosched()\<close>
  the queue is asked a second time; no other goroutine runs inside one call of the model.
\<close>

fun Read_loop :: "nat \<Rightarrow> nat \<Rightarrow> 'a Queue \<Rightarrow> 'a list \<Rightarrow> 'a list \<times> 'a Queue" where
  "Read_loop 0 i q items = (items, q)"
| "Read_loop (Suc k) i q items =
     (case Get q of
        (Some v, q') \<Rightarrow> Read_loop k (Suc i) q' (items @ [v])
      | (None, q') \<Rightarrow>
          if i > 0 then (items, q')
          else (case Get q' of
                  (None, q'') \<Rightarrow> (items, q'')
                | (Some v, q'') \<Rightarrow> Read_loop k (Suc i) q'' (items @ [v])))"

text \<open>
  \<^verbatim>\<open>Read(items)\<close> with \<open>len = len(items)\<close>.  The result is \<^verbatim>\<open>(n, err)\<close> and the items
  written to \<^verbatim>\<open>items[0..n)\<close>.  With nothing read, a non-empty queue sends the code back to
  \<^verbatim>\<open>READ\<close>, a closed pipe returns \<^verbatim>\<open>PipeEOF\<close>, and an open one waits on the condition
  variable.
\<close>

partial_function (option) Read ::
  "'a Pipe \<Rightarrow> nat \<Rightarrow> ((nat \<times> error option \<times> 'a list) outcome \<times> 'a Pipe) option" where
  "Read p len =
     (case Read_loop len 0 (queue p) [] of
        (items, q') \<Rightarrow>
          if length items > 0 then Some (Returns (length items, None, items), p\<lparr>queue := q'\<rparr>)
          else if Size q' \<noteq> 0 then Read (p\<lparr>queue := q'\<rparr>) len
          else if closed p then Some (Returns (0, Some PipeEOF, []), p\<lparr>queue := q'\<rparr>)
          else Some (Blocks, p\<lparr>queue := q'\<rparr>))"

declare Read.simps [code]

definition Write :: "'a Pipe \<Rightarrow> 'a list \<Rightarrow> 'a Pipe" where
  \<comment> \<open>\<^verbatim>\<open>Write(items ...Item)\<close> has no result; \<^verbatim>\<open>cond.Signal()\<close> wakes a parked reader\<close>
  "Write p items = p\<lparr>queue := foldl Add (queue p) items\<rparr>"

definition Close :: "'a Pipe \<Rightarrow> 'a Pipe" where
  "Close p = p\<lparr>closed := True\<rparr>"

text \<open>
  Modelled from the spec: this version of the pipe has no \<^verbatim>\<open>Cancel\<close>, which
  \<^verbatim>\<open>streamIO.cancel\<close> calls.  The spec: cancel marks the pipe cancelled, the remaining
  items are discarded and readers see EOF immediately.
\<close>

definition Cancel :: "'a Pipe \<Rightarrow> 'a Pipe" where
  "Cancel p = p\<lparr>queue := [], closed := True\<rparr>"

text \<open>A reader's successive \<^verbatim>\<open>Read\<close> calls, with the buffer length of each call.\<close>

fun Reads ::
  "'a Pipe \<Rightarrow> nat list \<Rightarrow> ((nat \<times> error option \<times> 'a list) outcome list \<times> 'a Pipe) option" where
  "Reads p [] = Some ([], p)"
| "Reads p (len # lens) =
     (case Read p len of
        None \<Rightarrow> None
      | Some (r, p') \<Rightarrow>
          (case Reads p' lens of None \<Rightarrow> None | Some (rs, p'') \<Rightarrow> Some (r # rs, p'')))"

text \<open>A writer's successive \<^verbatim>\<open>Write\<close> calls, each with its items.\<close>

definition Writes :: "'a Pipe \<Rightarrow> 'a list list \<Rightarrow> 'a Pipe" where
  "Writes p batches = foldl Write p batches"

subsection \<open>A writer and a reader on one pipe\<close>

text \<open>
  The calls of a writer and of a reader in the order in which they take effect.  A \<^verbatim>\<open>Read\<close>
  that would wait for the writer is an attempt that comes back empty-handed (\<open>Blocks\<close>).
\<close>

datatype 'a event = Ev_Write "'a list" | Ev_Close | Ev_Read nat

fun received :: "(nat \<times> error option \<times> 'a list) outcome \<Rightarrow> 'a list" where
  "received (Returns (n, err, items)) = items"
| "received (Panics m) = []"
| "received Blocks = []"

fun play ::
  "'a Pipe \<Rightarrow> 'a event list \<Rightarrow> ((nat \<times> error option \<times> 'a list) outcome list \<times> 'a Pipe) option" where
  "play p [] = Some ([], p)"
| "play p (Ev_Write items # es) = play (Write p items) es"
| "play p (Ev_Close # es) = play (Close p) es"
| "play p (Ev_Read len # es) =
     (case Read p len of
        None \<Rightarrow> None
      | Some (r, p') \<Rightarrow>
          (case play p' es of None \<Rightarrow> None | Some (rs, p'') \<Rightarrow> Some (r # rs, p'')))"

fun written :: "'a event list \<Rightarrow> 'a list" where
  "written [] = []"
| "written (Ev_Write items # es) = items @ written es"
| "written (Ev_Close # es) = written es"
| "written (Ev_Read len # es) = written es"

fun reads_ok :: "'a event list \<Rightarrow> bool" where
  "reads_ok [] = True"
| "reads_ok (Ev_Read len # es) = (0 < len \<and> reads_ok es)"
| "reads_ok (e # es) = reads_ok es"

text \<open>
  The writer writes and then closes: no \<^verbatim>\<open>Write\<close> comes after the \<^verbatim>\<open>Close\<close>.  The flag says
  whether the pipe is closed already.
\<close>

fun writes_then_close :: "bool \<Rightarrow> 'a event list \<Rightarrow> bool" where
  "writes_then_close c [] = True"
| "writes_then_close c (Ev_Write items # es) = (\<not> c \<and> writes_then_close c es)"
| "writes_then_close c (Ev_Close # es) = writes_then_close True es"
| "writes_then_close c (Ev_Read len # es) = writes_then_close c es"

subsection \<open>Channels\<close>

text \<open>
  A buffered Go channel \<^verbatim>\<open>make(chan T, cap)\<close>.  A send on a closed channel and a second
  \<^verbatim>\<open>close\<close> panic; a send on a full channel and a receive on an empty open one park the
  goroutine.
\<close>

record 'a chan =
  buf :: "'a list"
  cap :: nat
  chan_closed :: bool

definition make_chan :: "nat \<Rightarrow> 'a chan" where
  "make_chan n = \<lparr>buf = [], cap = n, chan_closed = False\<rparr>"

definition chan_send :: "'a chan \<Rightarrow> 'a \<Rightarrow> 'a chan outcome" where
  "chan_send c v =
     (if chan_closed c then Panics ''send on closed channel''
      else if length (buf c) < cap c then Returns (c\<lparr>buf := buf c @ [v]\<rparr>)
      else Blocks)"

definition chan_close :: "'a chan \<Rightarrow> 'a chan outcome" where
  "chan_close c =
     (if chan_closed c then Panics ''close of closed channel''
      else Returns (c\<lparr>chan_closed := True\<rparr>))"

subsection \<open>Method directory, frames and streams\<close>

datatype StreamingMode =
  StreamingNone | StreamingUnary | StreamingClient | StreamingServer | StreamingBidirectional

record MethodInfo =
  streamingMode :: StreamingMode
  oneway :: bool

text \<open>
  Modelled from the spec: \<^verbatim>\<open>serviceinfo.ServiceInfo.MethodInfo\<close> is not among the sources.
  The spec gives the contract \<^verbatim>\<open>lookup(name) -> {streamingMode, oneway}\<close>; the callers in
  \<^verbatim>\<open>genericclient/stream.go\<close> and \<^verbatim>\<open>generic_service.go\<close> keep the directory as the Go map
  \<^verbatim>\<open>Methods map[string]serviceinfo.MethodInfo\<close>, whose lookup of a missing name is the nil
  interface value (\<open>None\<close>).  A method call on it, as in
  \<^verbatim>\<open>t.sinfo.MethodInfo(fr.method).StreamingMode()\<close>, is a nil dereference.
\<close>

type_synonym ServiceInfo = "string \<rightharpoonup> MethodInfo"

definition MethodInfo :: "ServiceInfo \<Rightarrow> string \<Rightarrow> MethodInfo option" where
  "MethodInfo si name = si name"

definition nil_dereference :: string where
  "nil_dereference = ''runtime error: invalid memory address or nil pointer dereference''"

type_synonym Header = "(string \<times> string) list"
type_synonym Trailer = "(string \<times> string) list"

text \<open>
  Modelled from the spec: \<^verbatim>\<open>frame.go\<close> and \<^verbatim>\<open>stream.go\<close> are not among the sources.  The
  frame is the spec's record (type, sid, method, header, trailer, meta, payload), with the
  field names \<^verbatim>\<open>transport.go\<close> uses; the stream carries its \<^verbatim>\<open>streamFrame\<close> and its mode.
\<close>

datatype frameType = metaFrameType | headerFrameType | dataFrameType | trailerFrameType

record streamFrame =
  sid :: int32
  "method" :: string
  meta :: "(string \<times> string) list"
  header :: Header
  trailer :: Trailer

record Frame = streamFrame +
  frame_typ :: frameType      \<comment> \<open>the field \<^verbatim>\<open>typ\<close>\<close>
  payload :: bytes

definition newFrame :: "streamFrame \<Rightarrow> frameType \<Rightarrow> bytes \<Rightarrow> Frame" where
  "newFrame smeta ftype pl =
     \<lparr>sid = sid smeta, method = method smeta, meta = meta smeta, header = header smeta,
      trailer = trailer smeta, frame_typ = ftype, payload = pl\<rparr>"

record stream = streamFrame +
  mode :: StreamingMode

subsection \<open>streamIO\<close>

record streamIOMsg =
  msg_payload :: bytes
  msg_exception :: "error option"

type_synonym callback = nat
  \<comment> \<open>the registered \<^verbatim>\<open>func(ctx context.Context)\<close>, by name\<close>

text \<open>
  The fields \<^verbatim>\<open>ctx\<close> and \<^verbatim>\<open>trigger\<close> take no part in the methods below and are left out.
\<close>

record streamIO =
  stream :: stream
  pipe :: "streamIOMsg Pipe"
  cache :: "streamIOMsg list"        \<comment> \<open>\<^verbatim>\<open>[1]streamIOMsg\<close>\<close>
  exception :: "error option"
  eofFlag :: int32
  callbackFlag :: int32
  closeCallback :: "callback option"

definition zero_msg :: streamIOMsg where
  "zero_msg = \<lparr>msg_payload = [], msg_exception = None\<rparr>"

definition newStreamIO :: "stream \<Rightarrow> streamIO" where
  "newStreamIO s =
     \<lparr>stream = s, pipe = NewPipe, cache = [zero_msg], exception = None,
      eofFlag = 0, callbackFlag = 0, closeCallback = None\<rparr>"

definition streamIO_input :: "streamIO \<Rightarrow> streamIOMsg \<Rightarrow> streamIO" where
  \<comment> \<open>\<^verbatim>\<open>Write\<close> of this pipe has no result, so there is no error to log\<close>
  "streamIO_input s msg = s\<lparr>pipe := Write (pipe s) [msg]\<rparr>"

text \<open>
  \<^verbatim>\<open>output\<close> reads one message into \<^verbatim>\<open>s.cache[:]\<close>.  The sentinel \<^verbatim>\<open>container.ErrPipeEOF\<close>
  is not declared in this version of the pipe (it has \<^verbatim>\<open>PipeEOF\<close>), so it is a parameter.
\<close>

definition streamIO_output ::
  "error \<Rightarrow> streamIO \<Rightarrow> ((streamIOMsg \<times> error option) outcome \<times> streamIO) option" where
  "streamIO_output ErrPipeEOF s =
     (if exception s \<noteq> None then Some (Returns (zero_msg, exception s), s)
      else
        (case Read (pipe s) (length (cache s)) of
           None \<Rightarrow> None
         | Some (Blocks, p') \<Rightarrow> Some (Blocks, s\<lparr>pipe := p'\<rparr>)
         | Some (Panics m, p') \<Rightarrow> Some (Panics m, s\<lparr>pipe := p'\<rparr>)
         | Some (Returns (n, err, items), p') \<Rightarrow>
             (let s1 = s\<lparr>pipe := p', cache := items @ drop (length items) (cache s)\<rparr> in
              case err of
                Some e \<Rightarrow>
                  (let e' = (if errors_Is e ErrPipeEOF then io_EOF else e) in
                   Some (Returns (zero_msg, Some e'), s1\<lparr>exception := Some e'\<rparr>))
              | None \<Rightarrow>
                  if n = 0 then Some (Returns (zero_msg, Some io_EOF), s1\<lparr>exception := Some io_EOF\<rparr>)
                  else
                    (let msg = hd (cache s1) in
                     if msg_exception msg \<noteq> None
                     then Some (Returns (msg, msg_exception msg), s1\<lparr>exception := msg_exception msg\<rparr>)
                     else Some (Returns (msg, None), s1)))))"

subsection \<open>Transport\<close>

definition clientTransport :: int32 where "clientTransport = 1"
definition serverTransport :: int32 where "serverTransport = 2"
definition streamCacheSize :: nat where "streamCacheSize = 32"
definition frameChanSize :: nat where "frameChanSize = 32"

text \<open>
  \<^verbatim>\<open>time.Time\<close> is a reading of the clock in nanoseconds, \<^verbatim>\<open>time.Duration\<close> an \<^verbatim>\<open>int64\<close>
  of nanoseconds; \<^verbatim>\<open>Time.Sub\<close> saturates at the ends of that range.
\<close>

type_synonym Time = int
type_synonym Duration = int

definition maxDuration :: Duration where "maxDuration = 2 ^ 63 - 1"
definition minDuration :: Duration where "minDuration = - (2 ^ 63)"

definition Time_Sub :: "Time \<Rightarrow> Time \<Rightarrow> Duration" where
  "Time_Sub t u =
     (let d = t - u in
      if d > maxDuration then maxDuration else if d < minDuration then minDuration else d)"

definition Minute :: Duration where "Minute = 60 * 1000000000"
definition Hour :: Duration where "Hour = 60 * Minute"

text \<open>
  The connection (\<^verbatim>\<open>netpoll.Connection\<close>) is a collaborator: what the model keeps of it is
  whether it has been closed, its deadline, and the error its \<^verbatim>\<open>Close\<close> answers with.
\<close>

record Connection =
  conn_closed :: bool
  conn_deadline :: "Time option"
  conn_close_err :: "error option"

definition conn_Close :: "Connection \<Rightarrow> error option \<times> Connection" where
  "conn_Close c = (conn_close_err c, c\<lparr>conn_closed := True\<rparr>)"

record transport =
  kind :: int32
  sinfo :: ServiceInfo
  conn :: Connection
  streams :: "int32 \<rightharpoonup> streamIO"
  scache :: "stream list"             \<comment> \<open>a slice of capacity \<^verbatim>\<open>streamCacheSize\<close>\<close>
  spipe :: "stream Pipe"
  wchannel :: "Frame chan"
  lastActive :: "Time option"          \<comment> \<open>\<^verbatim>\<open>atomic.Value\<close>, \<open>None\<close> before the first \<^verbatim>\<open>Store\<close>\<close>

text \<open>
  What the transport calls and the sources do not hold: the payload codec
  (\<^verbatim>\<open>EncodePayload\<close>, \<^verbatim>\<open>DecodePayload\<close>), the sentinel \<^verbatim>\<open>container.ErrPipeEOF\<close>, and the
  methods of \<^verbatim>\<open>stream\<close> that the reader loop calls.  They are parameters; a stream method
  may change the transport it points back to and answers with its error.
\<close>

record 'd env =
  EncodePayload :: "'d \<Rightarrow> error + bytes"
  DecodePayload :: "bytes \<Rightarrow> error + 'd"
  ErrPipeEOF :: error
  readMetaFrame ::
    "transport \<Rightarrow> stream \<Rightarrow> (string \<times> string) list \<Rightarrow> Header \<Rightarrow> bytes \<Rightarrow> error option \<times> transport"
  readHeader :: "transport \<Rightarrow> stream \<Rightarrow> Header \<Rightarrow> error option \<times> transport"
  readTrailer :: "transport \<Rightarrow> stream \<Rightarrow> Trailer \<Rightarrow> error option \<times> transport"

text \<open>
  \<^verbatim>\<open>newTransport\<close>; \<open>now\<close> is \<^verbatim>\<open>time.Now()\<close>.  The two goroutines it starts run
  \<open>loopRead\<close> and \<^verbatim>\<open>loopWrite\<close> on this state.
\<close>

definition newTransport :: "Time \<Rightarrow> int32 \<Rightarrow> ServiceInfo \<Rightarrow> Connection \<Rightarrow> transport" where
  "newTransport now k si c =
     \<lparr>kind = k, sinfo = si, conn = c\<lparr>conn_deadline := Some (now + Hour)\<rparr>,
      streams = Map.empty, scache = [], spipe = NewPipe,
      wchannel = make_chan frameChanSize, lastActive = None\<rparr>"

definition storeStreamIO :: "transport \<Rightarrow> stream \<Rightarrow> transport" where
  "storeStreamIO t s = t\<lparr>streams := (streams t)(sid s \<mapsto> newStreamIO s)\<rparr>"

definition loadStreamIO :: "transport \<Rightarrow> int32 \<Rightarrow> streamIO option" where
  "loadStreamIO t i = streams t i"

text \<open>
  Modelled from the spec: the function \<^verbatim>\<open>newStream(ctx, trans, mode, smeta)\<close> of
  \<^verbatim>\<open>stream.go\<close> is not among the sources.  The spec: the Header frame handler creates a
  new Stream with the mode of the method directory and registers a StreamIO for it.
\<close>

definition newStream :: "transport \<Rightarrow> StreamingMode \<Rightarrow> streamFrame \<Rightarrow> stream \<times> transport" where
  "newStream t smode smeta =
     (let s = \<lparr>sid = sid smeta, method = method smeta, meta = meta smeta,
               header = header smeta, trailer = trailer smeta, mode = smode\<rparr>
      in (s, storeStreamIO t s))"

text \<open>
  One turn of the loop of \<^verbatim>\<open>loopRead\<close> on the decoded frame \<open>fr\<close>: the \<^verbatim>\<open>switch fr.typ\<close>.
  \<open>Returns None\<close> goes on with the next frame, \<open>Returns (Some err)\<close> is \<^verbatim>\<open>return err\<close>.
  A Data frame is handed to \<^verbatim>\<open>sio.input\<close> as the message that carries its payload.
\<close>

definition loopRead_frame :: "'d env \<Rightarrow> transport \<Rightarrow> Frame \<Rightarrow> error option outcome \<times> transport" where
  "loopRead_frame env t fr =
     (case frame_typ fr of
        metaFrameType \<Rightarrow>
          (case loadStreamIO t (sid fr) of
             None \<Rightarrow> (Returns None, t)
           | Some sio \<Rightarrow>
               (case readMetaFrame env t (stream sio) (meta fr) (header fr) (payload fr) of
                  (err, t') \<Rightarrow> (Returns err, t')))
      | headerFrameType \<Rightarrow>
          if kind t = serverTransport then
            (case MethodInfo (sinfo t) (method fr) of
               None \<Rightarrow> (Panics nil_dereference, t)
             | Some mi \<Rightarrow>
                 (case newStream t (streamingMode mi) (streamFrame.truncate fr) of
                    (s, t') \<Rightarrow> (Returns None, t'\<lparr>spipe := Write (spipe t') [s]\<rparr>)))
          else if kind t = clientTransport then
            (case loadStreamIO t (sid fr) of
               None \<Rightarrow> (Returns None, t)
             | Some sio \<Rightarrow>
                 (case readHeader env t (stream sio) (header fr) of
                    (err, t') \<Rightarrow> (Returns err, t')))
          else (Returns None, t)
      | dataFrameType \<Rightarrow>
          (case loadStreamIO t (sid fr) of
             None \<Rightarrow> (Returns None, t)
           | Some sio \<Rightarrow>
               (Returns None,
                t\<lparr>streams := (streams t)(sid fr \<mapsto>
                     streamIO_input sio \<lparr>msg_payload = payload fr, msg_exception = None\<rparr>)\<rparr>))
      | trailerFrameType \<Rightarrow>
          (case loadStreamIO t (sid fr) of
             None \<Rightarrow> (Returns None, t)
           | Some sio \<Rightarrow>
               (case readTrailer env t (stream sio) (trailer fr) of
                  (err, t') \<Rightarrow> (Returns err, t'))))"

text \<open>
  \<^verbatim>\<open>loopRead\<close> over what the connection delivers: for each turn the time \<^verbatim>\<open>time.Now()\<close>
  and the result of \<^verbatim>\<open>DecodeFrame\<close>.  When the list is used up the loop starts one more
  turn, at the time \<open>idle\<close>: it stores \<^verbatim>\<open>lastActive\<close> and waits in \<^verbatim>\<open>DecodeFrame\<close>.
\<close>

fun loopRead ::
  "'d env \<Rightarrow> (Time \<times> (error + Frame)) list \<Rightarrow> Time \<Rightarrow> transport \<Rightarrow> error outcome \<times> transport" where
  "loopRead env [] idle t = (Blocks, t\<lparr>lastActive := Some idle\<rparr>)"
| "loopRead env ((now, dec) # rest) idle t =
     (let t1 = t\<lparr>lastActive := Some now\<rparr> in
      case dec of
        Inl err \<Rightarrow> (Returns err, t1)
      | Inr fr \<Rightarrow>
          (case loopRead_frame env t1 fr of
             (Returns None, t2) \<Rightarrow> loopRead env rest idle t2
           | (Returns (Some err), t2) \<Rightarrow> (Returns err, t2)
           | (Panics m, t2) \<Rightarrow> (Panics m, t2)
           | (Blocks, t2) \<Rightarrow> (Blocks, t2)))"

definition writeFrame ::
  "'d env \<Rightarrow> transport \<Rightarrow> streamFrame \<Rightarrow> frameType \<Rightarrow> 'd option \<Rightarrow> error option outcome \<times> transport" where
  "writeFrame env t smeta ftype data =
     (case (case data of None \<Rightarrow> Inr [] | Some d \<Rightarrow> EncodePayload env d) of
        Inl err \<Rightarrow> (Returns (Some err), t)
      | Inr pl \<Rightarrow>
          (case chan_send (wchannel t) (newFrame smeta ftype pl) of
             Returns c \<Rightarrow> (Returns None, t\<lparr>wchannel := c\<rparr>)
           | Panics m \<Rightarrow> (Panics m, t)
           | Blocks \<Rightarrow> (Blocks, t)))"

definition Available :: "transport \<Rightarrow> Time \<Rightarrow> bool" where
  \<comment> \<open>\<open>now\<close> is \<^verbatim>\<open>time.Now()\<close>\<close>
  "Available t now =
     (case lastActive t of
        None \<Rightarrow> True
      | Some la \<Rightarrow> Time_Sub now la < Minute * 10)"

definition transport_Close :: "transport \<Rightarrow> error option outcome \<times> transport" where
  "transport_Close t =
     (let t1 = t\<lparr>spipe := Close (spipe t)\<rparr> in
      case chan_close (wchannel t1) of
        Panics m \<Rightarrow> (Panics m, t1)
      | Blocks \<Rightarrow> (Blocks, t1)
      | Returns c \<Rightarrow>
          (case conn_Close (conn t1) of
             (err, cn) \<Rightarrow> (Returns err, t1\<lparr>wchannel := c, conn := cn\<rparr>)))"

definition streamSendHeader ::
  "'d env \<Rightarrow> transport \<Rightarrow> int32 \<Rightarrow> string \<Rightarrow> Header \<Rightarrow> error option outcome \<times> transport" where
  "streamSendHeader env t i m h =
     writeFrame env t \<lparr>sid = i, method = m, meta = [], header = h, trailer = []\<rparr> headerFrameType None"

definition streamSendTrailer ::
  "'d env \<Rightarrow> transport \<Rightarrow> int32 \<Rightarrow> string \<Rightarrow> Trailer \<Rightarrow> error option outcome \<times> transport" where
  "streamSendTrailer env t i m tr =
     writeFrame env t \<lparr>sid = i, method = m, meta = [], header = [], trailer = tr\<rparr> trailerFrameType None"

definition streamSend ::
  "'d env \<Rightarrow> transport \<Rightarrow> int32 \<Rightarrow> string \<Rightarrow> Header \<Rightarrow> 'd option \<Rightarrow> error option outcome \<times> transport" where
  "streamSend env t i m wheader res =
     (let data_frame = (\<lambda>t'. writeFrame env t'
            \<lparr>sid = i, method = m, meta = [], header = [], trailer = []\<rparr> dataFrameType res) in
      if length wheader > 0 then
        (case streamSendHeader env t i m wheader of
           (Returns None, t') \<Rightarrow> data_frame t'
         | other \<Rightarrow> other)
      else data_frame t)"

text \<open>
  The argument \<^verbatim>\<open>data any\<close> of \<^verbatim>\<open>streamRecv\<close>: a value that implements
  \<^verbatim>\<open>thrift.FastCodec\<close>, with its content, or any other value.  The type assertion
  \<^verbatim>\<open>data.(thrift.FastCodec)\<close> has no \<^verbatim>\<open>ok\<close> result, so it panics on the latter; the rest of
  Go's message names the dynamic type of the value.
\<close>

datatype 'd any = FastCodec 'd | NotFastCodec

definition interface_conversion :: string where
  "interface_conversion = ''interface conversion: data is not thrift.FastCodec''"

text \<open>
  \<^verbatim>\<open>streamRecv\<close>: the result is the error returned and the value decoded into \<^verbatim>\<open>data\<close>.
  The arguments of \<^verbatim>\<open>DecodePayload\<close> are evaluated, the type assertion among them, after
  the message has been taken from the pipe.  The error of \<^verbatim>\<open>DecodePayload\<close> is assigned to
  \<^verbatim>\<open>err\<close>, and the function ends with \<^verbatim>\<open>return nil\<close>.
\<close>

definition streamRecv ::
  "'d env \<Rightarrow> transport \<Rightarrow> int32 \<Rightarrow> 'd any \<Rightarrow>
     ((error option \<times> 'd option) outcome \<times> transport) option" where
  "streamRecv env t i data =
     (case loadStreamIO t i of
        None \<Rightarrow> Some (Returns (Some io_EOF, None), t)
      | Some sio \<Rightarrow>
          (case streamIO_output (ErrPipeEOF env) sio of
             None \<Rightarrow> None
           | Some (r, sio') \<Rightarrow>
               (let t1 = t\<lparr>streams := (streams t)(i \<mapsto> sio')\<rparr> in
                case r of
                  Blocks \<Rightarrow> Some (Blocks, t1)
                | Panics m \<Rightarrow> Some (Panics m, t1)
                | Returns (f, Some err) \<Rightarrow> Some (Returns (Some err, None), t1)
                | Returns (f, None) \<Rightarrow>
                    (case data of
                       NotFastCodec \<Rightarrow> Some (Panics interface_conversion, t1)
                     | FastCodec d0 \<Rightarrow>
                         (case DecodePayload env (msg_payload f) of
                            Inl err \<Rightarrow> Some (Returns (None, None), t1)
                          | Inr d \<Rightarrow> Some (Returns (None, Some d), t1))))))"

definition streamClose :: "transport \<Rightarrow> stream \<Rightarrow> error option \<times> transport" where
  "streamClose t s = (None, t\<lparr>streams := (streams t)(sid s := None)\<rparr>)"

text \<open>
  The method \<^verbatim>\<open>transport.newStream\<close>.  \<open>g\<close> is the package variable \<^verbatim>\<open>clientStreamID\<close>,
  shared by all transports of the process; \<^verbatim>\<open>atomic.AddInt32\<close> wraps around.
\<close>

definition transport_newStream ::
  "'d env \<Rightarrow> int32 \<Rightarrow> transport \<Rightarrow> string \<Rightarrow> Header \<Rightarrow> (error + stream) outcome \<times> int32 \<times> transport" where
  "transport_newStream env g t m h =
     (if kind t \<noteq> clientTransport
      then (Returns (Inl (ErrorString ''transport already be used as other kind'')), g, t)
      else
        (let i = g + 1 in
         case MethodInfo (sinfo t) m of
           None \<Rightarrow> (Panics nil_dereference, i, t)
         | Some mi \<Rightarrow>
             (let smeta = \<lparr>sid = i, method = m, meta = [], header = h, trailer = []\<rparr> in
              case newStream t (streamingMode mi) smeta of
                (s, t1) \<Rightarrow>
                  (case writeFrame env t1 smeta headerFrameType None of
                     (Returns None, t2) \<Rightarrow> (Returns (Inr s), i, t2)
                   | (Returns (Some err), t2) \<Rightarrow> (Returns (Inl err), i, t2)
                   | (Panics msg, t2) \<Rightarrow> (Panics msg, i, t2)
                   | (Blocks, t2) \<Rightarrow> (Blocks, i, t2)))))"

text \<open>
  \<^verbatim>\<open>readStream\<close> from the label \<^verbatim>\<open>READ\<close> on.  \<^verbatim>\<open>t.scache[0:streamCacheSize]\<close> is the whole
  backing array of the empty cache; \<^verbatim>\<open>Read\<close> fills its first \<open>n\<close> places and
  \<^verbatim>\<open>t.scache[:n]\<close> is what was read.
\<close>

partial_function (option) readStream_READ ::
  "error \<Rightarrow> transport \<Rightarrow> ((error + stream) outcome \<times> transport) option" where
  "readStream_READ eof t =
     (if length (scache t) > 0
      then Some (Returns (Inr (last (scache t))), t\<lparr>scache := butlast (scache t)\<rparr>)
      else
        (case Read (spipe t) streamCacheSize of
           None \<Rightarrow> None
         | Some (Blocks, p) \<Rightarrow> Some (Blocks, t\<lparr>spipe := p\<rparr>)
         | Some (Panics m, p) \<Rightarrow> Some (Panics m, t\<lparr>spipe := p\<rparr>)
         | Some (Returns (n, err, items), p) \<Rightarrow>
             (case err of
                Some e \<Rightarrow>
                  if errors_Is e eof then Some (Returns (Inl io_EOF), t\<lparr>spipe := p\<rparr>)
                  else Some (Returns (Inl e), t\<lparr>spipe := p\<rparr>)
              | None \<Rightarrow>
                  if n = 0 then Some (Panics ''Assert: N == 0 !'', t\<lparr>spipe := p\<rparr>)
                  else readStream_READ eof (t\<lparr>spipe := p, scache := take n items\<rparr>))))"

declare readStream_READ.simps [code]

definition readStream :: "'d env \<Rightarrow> transport \<Rightarrow> ((error + stream) outcome \<times> transport) option" where
  "readStream env t =
     (if kind t \<noteq> serverTransport
      then Some (Returns (Inl (ErrorString ''transport already be used as other kind'')), t)
      else readStream_READ (ErrPipeEOF env) t)"

text \<open>\<open>k\<close> successive calls of \<^verbatim>\<open>readStream\<close>.\<close>

fun readStreams ::
  "'d env \<Rightarrow> transport \<Rightarrow> nat \<Rightarrow> ((error + stream) outcome list \<times> transport) option" where
  "readStreams env t 0 = Some ([], t)"
| "readStreams env t (Suc k) =
     (case readStream env t of
        None \<Rightarrow> None
      | Some (r, t') \<Rightarrow>
          (case readStreams env t' k of None \<Rightarrow> None | Some (rs, t'') \<Rightarrow> Some (r # rs, t'')))"

subsection \<open>The close paths of streamIO, one atomic step at a time\<close>

text \<open>
  \<^verbatim>\<open>closeRecv\<close>, \<^verbatim>\<open>closeSend\<close>, \<^verbatim>\<open>close\<close> and \<^verbatim>\<open>cancel\<close> run on any goroutine, so they are
  modelled as small steps that a scheduler interleaves.  A program counter names the
  statement a goroutine is about to run:
  \<^item> \<open>closeRecv_pipe_Close\<close>: \<^verbatim>\<open>s.pipe.Close()\<close> in \<^verbatim>\<open>closeRecv\<close>;
  \<^item> \<open>closeRecv_AddInt32\<close>, \<open>closeSend_AddInt32\<close>: the test
    \<^verbatim>\<open>s.closeCallback != nil && atomic.AddInt32(&s.eofFlag, 1) == 2\<close>;
  \<^item> \<open>close_pipe_Close\<close>, \<open>cancel_pipe_Cancel\<close>: the first statement of \<^verbatim>\<open>close\<close>, \<^verbatim>\<open>cancel\<close>;
  \<^item> \<open>close_stream_close\<close>, \<open>cancel_stream_close\<close>: \<^verbatim>\<open>s.stream.close()\<close>;
  \<^item> \<open>runCloseCallback_CAS\<close>: the test
    \<^verbatim>\<open>s.closeCallback != nil && atomic.CompareAndSwapInt32(&s.callbackFlag, 0, 1)\<close>;
  \<^item> \<open>runCloseCallback_call\<close>: \<^verbatim>\<open>s.closeCallback(s.ctx)\<close>.
  The field \<^verbatim>\<open>closeCallback\<close> is not assigned on any of these paths.  \<^verbatim>\<open>stream.close\<close> is
  not among the sources: it is a parameter that acts on the stream.
\<close>

datatype call = Call_closeRecv | Call_closeSend | Call_close | Call_cancel

datatype pc =
    closeRecv_pipe_Close
  | closeRecv_AddInt32
  | closeSend_AddInt32
  | close_pipe_Close
  | close_stream_close
  | cancel_pipe_Cancel
  | cancel_stream_close
  | runCloseCallback_CAS
  | runCloseCallback_call

fun entry :: "call \<Rightarrow> pc" where
  "entry Call_closeRecv = closeRecv_pipe_Close"
| "entry Call_closeSend = closeSend_AddInt32"
| "entry Call_close = close_pipe_Close"
| "entry Call_cancel = cancel_pipe_Cancel"

definition AddInt32_eofFlag :: "streamIO \<Rightarrow> streamIO \<times> pc option" where
  "AddInt32_eofFlag s =
     (if closeCallback s = None then (s, None)
      else
        (let s' = s\<lparr>eofFlag := eofFlag s + 1\<rparr> in
         if eofFlag s' = 2 then (s', Some runCloseCallback_CAS) else (s', None)))"

text \<open>
  One atomic step: the streamIO and the callbacks invoked so far, before and after, and
  where the goroutine goes next (\<open>None\<close>: the call has returned).
\<close>

fun exec ::
  "(stream \<Rightarrow> stream) \<Rightarrow> pc \<Rightarrow> streamIO \<times> callback list \<Rightarrow> (streamIO \<times> callback list) \<times> pc option" where
  "exec sc closeRecv_pipe_Close (s, cbs) = ((s\<lparr>pipe := Close (pipe s)\<rparr>, cbs), Some closeRecv_AddInt32)"
| "exec sc closeRecv_AddInt32 (s, cbs) = (case AddInt32_eofFlag s of (s', nxt) \<Rightarrow> ((s', cbs), nxt))"
| "exec sc closeSend_AddInt32 (s, cbs) = (case AddInt32_eofFlag s of (s', nxt) \<Rightarrow> ((s', cbs), nxt))"
| "exec sc close_pipe_Close (s, cbs) = ((s\<lparr>pipe := Close (pipe s)\<rparr>, cbs), Some close_stream_close)"
| "exec sc close_stream_close (s, cbs) = ((s\<lparr>stream := sc (stream s)\<rparr>, cbs), Some runCloseCallback_CAS)"
| "exec sc cancel_pipe_Cancel (s, cbs) = ((s\<lparr>pipe := Cancel (pipe s)\<rparr>, cbs), Some cancel_stream_close)"
| "exec sc cancel_stream_close (s, cbs) = ((s\<lparr>stream := sc (stream s)\<rparr>, cbs), Some runCloseCallback_CAS)"
| "exec sc runCloseCallback_CAS (s, cbs) =
     (if closeCallback s = None then ((s, cbs), None)
      else if callbackFlag s = 0 then ((s\<lparr>callbackFlag := 1\<rparr>, cbs), Some runCloseCallback_call)
      else ((s, cbs), None))"
| "exec sc runCloseCallback_call (s, cbs) =
     (case closeCallback s of
        None \<Rightarrow> ((s, cbs), None)
      | Some cb \<Rightarrow> ((s, cbs @ [cb]), None))"

record goroutine =
  at :: "pc option"       \<comment> \<open>inside a call, the statement to run next\<close>
  todo :: "call list"     \<comment> \<open>the calls this goroutine still makes, in order\<close>

record system =
  sio :: streamIO
  invoked :: "callback list"     \<comment> \<open>the invocations of the close callback so far\<close>
  goroutines :: "goroutine list"

text \<open>The scheduler lets goroutine \<open>i\<close> run one step: enter its next call, or run a statement.\<close>

definition step :: "(stream \<Rightarrow> stream) \<Rightarrow> system \<Rightarrow> nat \<Rightarrow> system" where
  "step sc sys i =
     (if i < length (goroutines sys) then
        (let g = goroutines sys ! i in
         case at g of
           Some c \<Rightarrow>
             (case exec sc c (sio sys, invoked sys) of
                ((s', cbs'), nxt) \<Rightarrow>
                  sys\<lparr>sio := s', invoked := cbs',
                      goroutines := (goroutines sys)[i := g\<lparr>at := nxt\<rparr>]\<rparr>)
         | None \<Rightarrow>
             (case todo g of
                [] \<Rightarrow> sys
              | c # cs \<Rightarrow> sys\<lparr>goroutines := (goroutines sys)[i := \<lparr>at = Some (entry c), todo = cs\<rparr>]\<rparr>))
      else sys)"

definition run :: "(stream \<Rightarrow> stream) \<Rightarrow> system \<Rightarrow> nat list \<Rightarrow> system" where
  "run sc sys schedule = foldl (step sc) sys schedule"

text \<open>
  A stream's streamIO as \<^verbatim>\<open>newStreamIO\<close> makes it, with the close callback registered, and
  goroutines that have their calls before them.
\<close>

definition start :: "stream \<Rightarrow> callback option \<Rightarrow> call list list \<Rightarrow> system" where
  "start s cb calls =
     \<lparr>sio = (newStreamIO s)\<lparr>closeCallback := cb\<rparr>, invoked = [],
      goroutines = map (\<lambda>cs. \<lparr>at = None, todo = cs\<rparr>) calls\<rparr>"

subsection \<open>What a reader of a closed pipe is to receive\<close>

text \<open>
  The \<open>j\<close>-th of a reader's calls with buffer lengths \<open>lens\<close> on a closed pipe that holds
  \<open>xs\<close>: the next items in order, as many as fit, and \<^verbatim>\<open>(0, PipeEOF)\<close> once the
  earlier calls have taken them all.
\<close>

definition nth_read :: "'a list \<Rightarrow> nat list \<Rightarrow> nat \<Rightarrow> (nat \<times> error option \<times> 'a list) outcome" where
  "nth_read xs lens j =
     (let done = sum_list (take j lens) in
      if length xs \<le> done then Returns (0, Some PipeEOF, [])
      else Returns (min (lens ! j) (length xs - done), None, take (lens ! j) (drop done xs)))"

subsection \<open>A server and a client at work\<close>

text \<open>
  A directory with the one method \<^verbatim>\<open>echo\<close>, a codec that passes bytes through, stream
  methods that do nothing, a fresh server and a fresh client transport, and a server
  transport that has read three Header frames.
\<close>

definition echo_sinfo :: ServiceInfo where
  "echo_sinfo = [''echo'' \<mapsto> \<lparr>streamingMode = StreamingBidirectional, oneway = False\<rparr>]"

definition fresh_conn :: Connection where
  "fresh_conn = \<lparr>conn_closed = False, conn_deadline = None, conn_close_err = None\<rparr>"

definition bytes_env :: "bytes env" where
  "bytes_env =
     \<lparr>EncodePayload = Inr, DecodePayload = Inr, ErrPipeEOF = io_EOF,
      readMetaFrame = (\<lambda>t s m h p. (None, t)),
      readHeader = (\<lambda>t s h. (None, t)),
      readTrailer = (\<lambda>t s tr. (None, t))\<rparr>"

definition header_frame :: "int32 \<Rightarrow> string \<Rightarrow> Frame" where
  "header_frame i m =
     \<lparr>sid = i, method = m, meta = [], header = [], trailer = [],
      frame_typ = headerFrameType, payload = []\<rparr>"

definition echo_stream :: "int32 \<Rightarrow> stream" where
  "echo_stream i =
     \<lparr>sid = i, method = ''echo'', meta = [], header = [], trailer = [],
      mode = StreamingBidirectional\<rparr>"

definition server0 :: transport where
  "server0 = newTransport 0 serverTransport echo_sinfo fresh_conn"

definition client0 :: transport where
  "client0 = newTransport 0 clientTransport echo_sinfo fresh_conn"

definition three_accepted :: transport where
  "three_accepted =
     snd (loopRead bytes_env
            [(1, Inr (header_frame 1 ''echo'')), (2, Inr (header_frame 2 ''echo'')),
             (3, Inr (header_frame 3 ''echo''))]
            4 server0)"

text \<open>
  A client whose codec fails on every payload, with stream 1 registered and one Data frame
  for it read by \<open>loopRead\<close>.
\<close>

definition failing_decode_env :: "bytes env" where
  "failing_decode_env = bytes_env\<lparr>DecodePayload := (\<lambda>b. Inl (ErrorString ''decode failed''))\<rparr>"

definition data_frame :: "int32 \<Rightarrow> bytes \<Rightarrow> Frame" where
  "data_frame i pl =
     \<lparr>sid = i, method = ''echo'', meta = [], header = [], trailer = [],
      frame_typ = dataFrameType, payload = pl\<rparr>"

definition client_with_data :: transport where
  "client_with_data =
     snd (loopRead failing_decode_env [(1, Inr (data_frame 1 [1, 2, 3]))] 2
            (storeStreamIO client0 (echo_stream 1)))"

subsection \<open>The latch of the close callback\<close>

text \<open>
  The goroutines about to run \<^verbatim>\<open>s.closeCallback(s.ctx)\<close>, and the invariant of the
  small-step system: invocations made plus invocations pending are none while
  \<^verbatim>\<open>callbackFlag\<close> is 0 and at most one afterwards.
\<close>

definition calling :: "goroutine list \<Rightarrow> nat" where
  "calling gs = length (filter (\<lambda>g. at g = Some runCloseCallback_call) gs)"

definition latch_inv :: "system \<Rightarrow> bool" where
  "latch_inv sys =
     (length (invoked sys) + calling (goroutines sys) \<le> (if callbackFlag (sio sys) = 0 then 0 else 1))"

definition others_calling :: "goroutine list \<Rightarrow> nat \<Rightarrow> nat" where
  "others_calling gs i = calling (gs[i := \<lparr>at = None, todo = []\<rparr>])"

section \<open>Properties\<close>

subsection \<open>Pipe\<close>

lemma Read_loop_eq: "Read_loop k i q items = (items @ take k q, drop k q)"
  by (induction k i q items rule: Read_loop.induct) (auto simp: Get_def split: list.splits)

text \<open>With a buffer of positive length \<^verbatim>\<open>Read\<close> returns or parks; it never spins.\<close>

lemma Read_pos:
  "0 < len \<Longrightarrow> Read p len =
     Some (if queue p \<noteq> [] then
             (Returns (min len (length (queue p)), None, take len (queue p)),
              p\<lparr>queue := drop len (queue p)\<rparr>)
           else if closed p then (Returns (0, Some PipeEOF, []), p)
           else (Blocks, p))"
  by (subst Read.simps) (auto simp: Read_loop_eq Size_def min_def)

text \<open>
  With an empty buffer and items in the queue the code goes from the wait loop back to
  \<^verbatim>\<open>READ\<close> for ever.
\<close>

lemma Read_zero_Some:
  assumes "Read p len = Some r"
  shows "len = 0 \<longrightarrow> queue p = []"
proof (rule Read.raw_induct [where P = "\<lambda>p len r. len = 0 \<longrightarrow> queue p = []", OF _ assms])
  fix Read' :: "'a Pipe \<Rightarrow> nat \<Rightarrow> ((nat \<times> error option \<times> 'a list) outcome \<times> 'a Pipe) option"
    and p len r
  assume IH: "\<And>p len r. Read' p len = Some r \<Longrightarrow> len = 0 \<longrightarrow> queue p = []"
    and body: "(case Read_loop len 0 (queue p) [] of
      (items, q') \<Rightarrow>
        if 0 < length items
        then Some (Returns (length items, None, items), p\<lparr>queue := q'\<rparr>)
        else if Size q' \<noteq> 0 then Read' (p\<lparr>queue := q'\<rparr>) len
             else if closed p
                  then Some (Returns (0, Some PipeEOF, []), p\<lparr>queue := q'\<rparr>)
                  else Some (Blocks, p\<lparr>queue := q'\<rparr>)) = Some r"
  show "len = 0 \<longrightarrow> queue p = []"
  proof
    assume z: "len = 0"
    show "queue p = []"
    proof (rule ccontr)
      assume ne: "queue p \<noteq> []"
      with body z have "Read' (p\<lparr>queue := queue p\<rparr>) 0 = Some r"
        by (simp add: Size_def)
      from IH [OF this] ne show False by simp
    qed
  qed
qed

lemma Read_zero_spins: "queue p \<noteq> [] \<Longrightarrow> Read p 0 = None"
  using Read_zero_Some [of p 0] by (cases "Read p 0") auto

lemma foldl_Add: "foldl Add q items = q @ items"
  by (induction items arbitrary: q) (auto simp: Add_def)

lemma queue_Write: "queue (Write p items) = queue p @ items"
  by (simp add: Write_def foldl_Add)

lemma closed_Write: "closed (Write p items) = closed p"
  by (simp add: Write_def)

lemma queue_Writes: "queue (Writes p batches) = queue p @ concat batches"
  unfolding Writes_def by (induction batches arbitrary: p) (auto simp: queue_Write)

lemma closed_Writes: "closed (Writes p batches) = closed p"
  unfolding Writes_def by (induction batches arbitrary: p) (auto simp: closed_Write)

lemma nth_read_shift:
  "nth_read (drop len xs) lens j = nth_read xs (len # lens) (Suc j)"
  by (auto simp: nth_read_def Let_def add.commute)

lemma Reads_closed:
  assumes "closed p" "\<forall>len \<in> set lens. 0 < len"
  shows "Reads p lens =
           Some (map (nth_read (queue p) lens) [0..<length lens],
                 p\<lparr>queue := drop (sum_list lens) (queue p)\<rparr>)"
  using assms
proof (induction lens arbitrary: p)
  case Nil
  then show ?case by simp
next
  case (Cons len lens)
  let ?p' = "p\<lparr>queue := drop len (queue p)\<rparr>"
  have len: "0 < len" using Cons.prems by simp
  have R: "Read p len = Some (nth_read (queue p) (len # lens) 0, ?p')"
    using len Cons.prems(1) by (cases "queue p") (auto simp: Read_pos nth_read_def)
  have IH: "Reads ?p' lens =
      Some (map (nth_read (queue ?p') lens) [0..<length lens],
            ?p'\<lparr>queue := drop (sum_list lens) (queue ?p')\<rparr>)"
    using Cons.IH[of ?p'] Cons.prems by simp
  show ?case
    by (simp add: R IH map_upt_Suc nth_read_shift add.commute del: upt_Suc)
qed

text \<open>
  C6.  After the writes \<open>batches\<close> and \<^verbatim>\<open>Close\<close>, a single reader's successive \<^verbatim>\<open>Read\<close>
  calls (buffers of any positive lengths \<open>lens\<close>) all return: call \<open>j\<close> returns the next
  items of \<open>concat batches\<close> in write order, as many as its buffer holds, with no error,
  and once the earlier calls have delivered every item it returns count zero and
  \<^verbatim>\<open>PipeEOF\<close>.  Nothing written before the close is dropped or reordered.
\<close>

theorem Pipe_reads_after_close_are_fifo_then_EOF:
  assumes "\<forall>len \<in> set lens. 0 < len"
  shows "Reads (Close (Writes NewPipe batches)) lens =
           Some (map (\<lambda>j. let xs = concat batches; done = sum_list (take j lens) in
                           if length xs \<le> done then Returns (0, Some PipeEOF, [])
                           else Returns (min (lens ! j) (length xs - done), None,
                                         take (lens ! j) (drop done xs)))
                     [0..<length lens],
                 \<lparr>queue = drop (sum_list lens) (concat batches), closed = True\<rparr>)"
proof -
  let ?p = "Close (Writes NewPipe batches)"
  have c: "closed ?p" by (simp add: Close_def)
  have q: "queue ?p = concat batches"
    by (simp add: Close_def queue_Writes NewPipe_def NewQueueWithLocker_def)
  have "?p\<lparr>queue := drop (sum_list lens) (concat batches)\<rparr> =
        \<lparr>queue = drop (sum_list lens) (concat batches), closed = True\<rparr>"
    by (simp add: Close_def)
  with Reads_closed[OF c assms] show ?thesis
    unfolding q nth_read_def by (simp add: Let_def)
qed

theorem Pipe_reads_after_close_witness:
  "Reads (Close (Writes NewPipe [[1::nat, 2], [3, 4, 5]])) [2, 1, 4, 3] =
     Some ([Returns (2, None, [1, 2]), Returns (1, None, [3]), Returns (2, None, [4, 5]),
            Returns (0, Some PipeEOF, [])],
           \<lparr>queue = [], closed = True\<rparr>)"
  using Pipe_reads_after_close_are_fifo_then_EOF [of "[2, 1, 4, 3]" "[[1::nat, 2], [3, 4, 5]]"]
  by (simp add: upt_rec)

text \<open>
  The same for reads that run while the writer is still writing: in every interleaving
  the items handed out so far, followed by the items still queued, are the items
  written so far in write order; and when the writer closes after its last write, a
  \<^verbatim>\<open>Read\<close> answers \<^verbatim>\<open>PipeEOF\<close> only once every item has been handed out.
\<close>

lemma Read_pos_received:
  assumes "0 < len"
  obtains r p' where "Read p len = Some (r, p')" "received r @ queue p' = queue p"
    "closed p' = closed p"
    "r = Returns (0, Some PipeEOF, []) \<Longrightarrow> closed p \<and> queue p = []"
proof (cases "queue p = []")
  case True
  show ?thesis
    by (rule that [of "if closed p then Returns (0, Some PipeEOF, []) else Blocks" p])
       (use True in \<open>auto simp: Read_pos [OF assms] split: if_splits\<close>)
next
  case False
  show ?thesis
    by (rule that [of "Returns (min len (length (queue p)), None, take len (queue p))"
                      "p\<lparr>queue := drop len (queue p)\<rparr>"])
       (use False assms in \<open>auto simp: Read_pos [OF assms]\<close>)
qed

lemma play_conserves:
  assumes "reads_ok es"
  shows "\<exists>outs p'. play p es = Some (outs, p') \<and>
           concat (map received outs) @ queue p' = queue p @ written es"
  using assms
proof (induction es arbitrary: p)
  case Nil
  then show ?case by simp
next
  case (Cons e es)
  show ?case
  proof (cases e)
    case (Ev_Write items)
    with Cons.IH [of "Write p items"] Cons.prems show ?thesis by (auto simp: queue_Write)
  next
    case Ev_Close
    with Cons.IH [of "Close p"] Cons.prems show ?thesis by (auto simp: Close_def)
  next
    case (Ev_Read len)
    with Cons.prems have len: "0 < len" and ok: "reads_ok es" by simp_all
    from Read_pos_received [OF len, of p] obtain r p' where
      R: "Read p len = Some (r, p')" and q: "received r @ queue p' = queue p" by metis
    from Cons.IH [OF ok, of p'] obtain outs p'' where
      P: "play p' es = Some (outs, p'')"
      and c: "concat (map received outs) @ queue p'' = queue p' @ written es"
      by auto
    have "received r @ concat (map received outs) @ queue p'' = queue p @ written es"
      using q c by (metis append_assoc)
    then show ?thesis using Ev_Read R P by simp
  qed
qed

lemma written_Nil: "writes_then_close True es \<Longrightarrow> written es = []"
proof (induction es)
  case Nil
  then show ?case by simp
next
  case (Cons e es)
  then show ?case by (cases e) simp_all
qed

lemma play_EOF_only_when_all_delivered:
  assumes "reads_ok es" "writes_then_close (closed p) es" "play p es = Some (outs, p')"
    and "k < length outs" "outs ! k = Returns (0, Some PipeEOF, [])"
  shows "concat (map received (take k outs)) = queue p @ written es"
  using assms
proof (induction es arbitrary: p outs k)
  case Nil
  then show ?case by simp
next
  case (Cons e es)
  show ?case
  proof (cases e)
    case (Ev_Write items)
    with Cons.IH [of "Write p items" outs k] Cons.prems show ?thesis
      by (auto simp: queue_Write closed_Write)
  next
    case Ev_Close
    with Cons.IH [of "Close p" outs k] Cons.prems show ?thesis
      by (simp add: Close_def)
  next
    case (Ev_Read len)
    with Cons.prems have len: "0 < len" and ok: "reads_ok es"
      and wc: "writes_then_close (closed p) es" by simp_all
    from Read_pos_received [OF len, of p] obtain r p1 where
      R: "Read p len = Some (r, p1)" and q: "received r @ queue p1 = queue p"
      and cl: "closed p1 = closed p"
      and eof: "r = Returns (0, Some PipeEOF, []) \<Longrightarrow> closed p \<and> queue p = []"
      by metis
    from Cons.prems(3) Ev_Read R obtain rs where
      P: "play p1 es = Some (rs, p')" and outs: "outs = r # rs"
      by (auto split: option.splits)
    show ?thesis
    proof (cases k)
      case 0
      with Cons.prems(5) outs have "r = Returns (0, Some PipeEOF, [])" by simp
      from eof [OF this] wc have "queue p = []" "written es = []"
        by (simp_all add: written_Nil)
      with 0 Ev_Read show ?thesis by simp
    next
      case (Suc j)
      with Cons.prems(4,5) outs have j: "j < length rs" "rs ! j = Returns (0, Some PipeEOF, [])"
        by simp_all
      from Cons.IH [OF ok _ P j] wc cl
      have "concat (map received (take j rs)) = queue p1 @ written es" by simp
      then have "received r @ concat (map received (take j rs)) = queue p @ written es"
        using q by (metis append_assoc)
      with Suc outs Ev_Read show ?thesis by simp
    qed
  qed
qed

text \<open>
  C7, as the code has it.  \<^verbatim>\<open>Write\<close> has no result and does not look at \<^verbatim>\<open>closed\<close>: on a
  closed pipe it appends the item all the same, and the next \<^verbatim>\<open>Read\<close> hands it out behind
  the items queued before it, before any \<^verbatim>\<open>PipeEOF\<close>.
\<close>

theorem Write_on_closed_Pipe_enqueues:
  assumes "0 < len"
  shows "Read (Write (Close p) [x]) len =
           Some (Returns (min len (Suc (length (queue p))), None, take len (queue p @ [x])),
                 \<lparr>queue = drop len (queue p @ [x]), closed = True\<rparr>)"
proof -
  let ?w = "Write (Close p) [x]"
  have q: "queue ?w = queue p @ [x]" by (simp add: queue_Write Close_def)
  have c: "closed ?w" by (simp add: closed_Write Close_def)
  have r: "?w\<lparr>queue := drop len (queue p @ [x])\<rparr> =
           \<lparr>queue = drop len (queue p @ [x]), closed = True\<rparr>"
    using c by (cases ?w) simp
  show ?thesis
    unfolding Read_pos [OF assms, of ?w] q using r by simp
qed

theorem Write_on_closed_Pipe_witness:
  "Read (Write (Close NewPipe) [7::nat]) 1 =
     Some (Returns (1, None, [7]), \<lparr>queue = [], closed = True\<rparr>)"
  using Write_on_closed_Pipe_enqueues [of 1 NewPipe "7::nat"]
  by (simp add: NewPipe_def NewQueueWithLocker_def)

text \<open>The item written to the closed pipe is in its queue.\<close>

theorem Write_on_closed_Pipe_counterexample:
  "queue (Write (Close NewPipe) [7::nat]) = [7]"
  by (simp add: Write_def Close_def NewPipe_def NewQueueWithLocker_def Add_def)

subsection \<open>Transport\<close>

lemma Time_Sub_less_iff:
  "minDuration < b \<Longrightarrow> b \<le> maxDuration \<Longrightarrow> Time_Sub t u < b \<longleftrightarrow> t - u < b"
  by (auto simp: Time_Sub_def Let_def)

text \<open>
  C9.  \<^verbatim>\<open>Available\<close> is true exactly when no activity has been recorded yet or the time
  elapsed since \<^verbatim>\<open>lastActive\<close> is strictly less than ten minutes (in nanoseconds).
\<close>

theorem Available_iff_idle_less_than_ten_minutes:
  "Available t now =
     (case lastActive t of None \<Rightarrow> True | Some la \<Rightarrow> now - la < 10 * 60 * 1000000000)"
  by (simp add: Available_def Time_Sub_less_iff Minute_def minDuration_def maxDuration_def
           split: option.split)

lemma readStream_cached:
  assumes "kind t = serverTransport" "scache t \<noteq> []"
  shows "readStream env t = Some (Returns (Inr (last (scache t))), t\<lparr>scache := butlast (scache t)\<rparr>)"
  using assms by (simp add: readStream_def readStream_READ.simps)

lemma readStreams_drain_cache:
  assumes "kind t = serverTransport" "scache t = xs"
  shows "readStreams env t (length xs) =
           Some (map (\<lambda>s. Returns (Inr s)) (rev xs), t\<lparr>scache := []\<rparr>)"
  using assms
proof (induction xs arbitrary: t rule: rev_induct)
  case Nil
  then show ?case by simp
next
  case (snoc x xs)
  let ?t' = "t\<lparr>scache := xs\<rparr>"
  have 1: "readStream env t = Some (Returns (Inr x), ?t')"
    using snoc.prems by (simp add: readStream_cached)
  have 2: "readStreams env ?t' (length xs) = Some (map (\<lambda>s. Returns (Inr s)) (rev xs), ?t'\<lparr>scache := []\<rparr>)"
    using snoc.IH[of ?t'] snoc.prems by simp
  show ?case by (simp add: 1 2)
qed

lemma readStream_fill:
  assumes "kind t = serverTransport" "scache t = []"
    and "queue (spipe t) \<noteq> []" "length (queue (spipe t)) \<le> streamCacheSize"
  shows "readStream env t =
           Some (Returns (Inr (last (queue (spipe t)))),
                 t\<lparr>spipe := (spipe t)\<lparr>queue := []\<rparr>, scache := butlast (queue (spipe t))\<rparr>)"
proof -
  have pos: "0 < streamCacheSize" by (simp add: streamCacheSize_def)
  have R: "Read (spipe t) streamCacheSize =
      Some (Returns (length (queue (spipe t)), None, queue (spipe t)), (spipe t)\<lparr>queue := []\<rparr>)"
    using assms(3,4) by (simp add: Read_pos [OF pos])
  show ?thesis
    using assms(1,2,3)
    by (simp add: readStream_def readStream_READ.simps [of _ t] R
        readStream_READ.simps [of _ "t\<lparr>spipe := (spipe t)\<lparr>queue := []\<rparr>, scache := queue (spipe t)\<rparr>"])
qed

text \<open>
  C10.  On a server transport with an empty cache whose accept pipe holds \<open>k\<close> streams,
  \<open>2 \<le> k \<le> 32\<close>, the first \<^verbatim>\<open>readStream\<close> takes all of them out of the pipe in one
  \<^verbatim>\<open>Read\<close> and returns the one that arrived last; \<open>k\<close> successive calls return the streams
  in reverse arrival order, which is not the arrival order when the streams are distinct.
\<close>

theorem readStream_returns_batch_in_reverse_arrival_order:
  assumes "kind t = serverTransport" "scache t = []"
    and "2 \<le> length (queue (spipe t))" "length (queue (spipe t)) \<le> 32"
  shows "readStream env t =
           Some (Returns (Inr (last (queue (spipe t)))),
                 t\<lparr>spipe := (spipe t)\<lparr>queue := []\<rparr>, scache := butlast (queue (spipe t))\<rparr>)
       \<and> readStreams env t (length (queue (spipe t))) =
           Some (map (\<lambda>s. Returns (Inr s)) (rev (queue (spipe t))),
                 t\<lparr>spipe := (spipe t)\<lparr>queue := []\<rparr>\<rparr>)
       \<and> (distinct (queue (spipe t)) \<longrightarrow> rev (queue (spipe t)) \<noteq> queue (spipe t))"
proof -
  let ?ss = "queue (spipe t)"
  let ?t1 = "t\<lparr>spipe := (spipe t)\<lparr>queue := []\<rparr>, scache := butlast ?ss\<rparr>"
  have ne: "?ss \<noteq> []" using assms(3) by auto
  have first: "readStream env t = Some (Returns (Inr (last ?ss)), ?t1)"
    using readStream_fill [OF assms(1,2) ne] assms(4) by (simp add: streamCacheSize_def)
  have rest: "readStreams env ?t1 (length (butlast ?ss)) =
      Some (map (\<lambda>s. Returns (Inr s)) (rev (butlast ?ss)), ?t1\<lparr>scache := []\<rparr>)"
    by (rule readStreams_drain_cache) (simp_all add: assms(1))
  have len: "length ?ss = Suc (length (butlast ?ss))" using ne by simp
  have rv: "rev ?ss = last ?ss # rev (butlast ?ss)"
    using ne by (metis append_butlast_last_id rev.simps(2) rev_append rev_rev_ident append_Cons append_Nil rev_singleton_conv)
  have fin: "?t1\<lparr>scache := []\<rparr> = t\<lparr>spipe := (spipe t)\<lparr>queue := []\<rparr>\<rparr>"
    using assms(2) by simp
  have all: "readStreams env t (length ?ss) =
      Some (map (\<lambda>s. Returns (Inr s)) (rev ?ss), t\<lparr>spipe := (spipe t)\<lparr>queue := []\<rparr>\<rparr>)"
  proof -
    have "readStreams env t (Suc (length (butlast ?ss))) =
        Some (Returns (Inr (last ?ss)) # map (\<lambda>s. Returns (Inr s)) (rev (butlast ?ss)),
              t\<lparr>spipe := (spipe t)\<lparr>queue := []\<rparr>\<rparr>)"
      by (simp add: first rest fin del: length_butlast)
    then show ?thesis by (simp only: len [symmetric] rv list.map)
  qed
  have "rev ?ss \<noteq> ?ss" if d: "distinct ?ss"
  proof
    assume e: "rev ?ss = ?ss"
    obtain a b rest where ss: "?ss = a # b # rest"
      using assms(3) by (cases ?ss; cases "tl ?ss") auto
    have "hd (rev ?ss) = last ?ss" using ne by (simp add: hd_rev)
    with e have "last ?ss = a" using ss by simp
    moreover have "last ?ss \<in> set (b # rest)" using ss by simp
    ultimately show False using d ss by auto
  qed
  with first all show ?thesis by blast
qed


text \<open>Three Header frames read by \<open>loopRead\<close> put their streams on the accept pipe in order.\<close>

lemma three_accepted_facts:
  "kind three_accepted = serverTransport"
  "scache three_accepted = []"
  "queue (spipe three_accepted) = [echo_stream 1, echo_stream 2, echo_stream 3]"
  by (simp_all add: three_accepted_def server0_def loopRead_frame_def newTransport_def header_frame_def
      echo_sinfo_def bytes_env_def MethodInfo_def newStream_def storeStreamIO_def
      streamFrame.truncate_def Write_def Add_def NewPipe_def NewQueueWithLocker_def
      echo_stream_def Let_def)

theorem readStream_reverse_order_witness:
  "map_option fst (readStreams bytes_env three_accepted 3) =
     Some [Returns (Inr (echo_stream 3)), Returns (Inr (echo_stream 2)), Returns (Inr (echo_stream 1))]"
proof -
  have k: "length (queue (spipe three_accepted)) = 3"
    by (simp add: three_accepted_facts)
  have b: "2 \<le> length (queue (spipe three_accepted))" "length (queue (spipe three_accepted)) \<le> 32"
    by (simp_all add: k)
  from readStream_returns_batch_in_reverse_arrival_order
         [OF three_accepted_facts(1) three_accepted_facts(2) b, of bytes_env]
  have "readStreams bytes_env three_accepted (length (queue (spipe three_accepted))) =
          Some (map (\<lambda>s. Returns (Inr s)) (rev (queue (spipe three_accepted))),
                three_accepted\<lparr>spipe := (spipe three_accepted)\<lparr>queue := []\<rparr>\<rparr>)"
    by blast
  then show ?thesis
    unfolding k by (simp add: three_accepted_facts(3))
qed

lemma newStream_eq:
  "newStream t smode smeta =
     (\<lparr>sid = sid smeta, method = method smeta, meta = meta smeta, header = header smeta,
       trailer = trailer smeta, mode = smode\<rparr>,
      t\<lparr>streams := (streams t)(sid smeta \<mapsto>
           newStreamIO \<lparr>sid = sid smeta, method = method smeta, meta = meta smeta,
                        header = header smeta, trailer = trailer smeta, mode = smode\<rparr>)\<rparr>)"
  by (simp add: newStream_def storeStreamIO_def Let_def)

text \<open>
  A Header frame for a method the directory holds: the handler creates the stream with the
  directory's streaming mode, registers its streamIO and enqueues the stream on the
  accept pipe.  Whatever the method, it writes nothing to the write channel.
\<close>

lemma loopRead_frame_server_Header_known_method:
  assumes "kind t = serverTransport" "frame_typ fr = headerFrameType"
    and "MethodInfo (sinfo t) (method fr) = Some mi"
  shows "loopRead_frame env t fr =
           (let s = \<lparr>sid = sid fr, method = method fr, meta = meta fr, header = header fr,
                     trailer = trailer fr, mode = streamingMode mi\<rparr>
            in (Returns None,
                t\<lparr>streams := (streams t)(sid fr \<mapsto> newStreamIO s),
                   spipe := (spipe t)\<lparr>queue := queue (spipe t) @ [s]\<rparr>\<rparr>))"
  using assms
  by (simp add: loopRead_frame_def newStream_eq streamFrame.truncate_def Write_def Add_def Let_def)

lemma loopRead_frame_server_Header_keeps_wchannel:
  assumes "kind t = serverTransport" "frame_typ fr = headerFrameType"
  shows "wchannel (snd (loopRead_frame env t fr)) = wchannel t"
  using assms
  by (auto simp: loopRead_frame_def newStream_eq Let_def split: option.splits)

lemma loopRead_frame_echo_Header:
  "loopRead_frame bytes_env server0 (header_frame 1 ''echo'') =
     (Returns None,
      server0\<lparr>streams := [1 \<mapsto> newStreamIO (echo_stream 1)],
              spipe := \<lparr>queue = [echo_stream 1], closed = False\<rparr>\<rparr>)"
  by (simp add: loopRead_frame_def newStream_eq streamFrame.truncate_def Write_def Add_def Let_def
      header_frame_def echo_stream_def server0_def newTransport_def NewPipe_def
      NewQueueWithLocker_def MethodInfo_def echo_sinfo_def)

text \<open>
  C1, as the code has it.  When the reader loop of a server transport receives a Header
  frame whose method is not in the method directory, the handler emits no Trailer: it
  writes no frame to the write channel.  And the stream is dropped: no streamIO is
  registered for it and no Stream for that method is enqueued on the accept pipe.
\<close>

theorem loopRead_frame_unknown_method_Header:
  assumes "kind t = serverTransport" "frame_typ fr = headerFrameType"
    and "MethodInfo (sinfo t) (method fr) = None"
  shows "wchannel (snd (loopRead_frame env t fr)) = wchannel t
       \<and> spipe (snd (loopRead_frame env t fr)) = spipe t
       \<and> streams (snd (loopRead_frame env t fr)) = streams t"
  using assms by (simp add: loopRead_frame_def)

text \<open>The same for the loop: with such a frame at its head, nothing that follows is read.\<close>

lemma loopRead_unknown_method_Header:
  assumes "kind t = serverTransport" "frame_typ fr = headerFrameType"
    and "MethodInfo (sinfo t) (method fr) = None"
  shows "wchannel (snd (loopRead env ((now, Inr fr) # rest) idle t)) = wchannel t
       \<and> spipe (snd (loopRead env ((now, Inr fr) # rest) idle t)) = spipe t
       \<and> streams (snd (loopRead env ((now, Inr fr) # rest) idle t)) = streams t"
  using assms by (simp add: loopRead_frame_def)

text \<open>
  A server that has accepted three streams reads a Header frame for the method
  \<^verbatim>\<open>nope\<close>: the accept pipe holds the same three streams afterwards, stream 9 is not
  registered and the write channel is empty.
\<close>

lemma three_accepted_directory:
  "kind three_accepted = serverTransport"
  "MethodInfo (sinfo three_accepted) (method (header_frame 9 ''nope'')) = None"
  "streams three_accepted 9 = None"
  "buf (wchannel three_accepted) = []"
  by (simp_all add: three_accepted_def server0_def loopRead_frame_def newTransport_def
      header_frame_def echo_sinfo_def MethodInfo_def newStream_def storeStreamIO_def
      streamFrame.truncate_def make_chan_def Let_def)

theorem loopRead_frame_unknown_method_Header_witness:
  "queue (spipe (snd (loopRead_frame bytes_env three_accepted (header_frame 9 ''nope'')))) =
     [echo_stream 1, echo_stream 2, echo_stream 3]
   \<and> streams (snd (loopRead_frame bytes_env three_accepted (header_frame 9 ''nope''))) 9 = None
   \<and> buf (wchannel (snd (loopRead_frame bytes_env three_accepted (header_frame 9 ''nope'')))) = []"
proof -
  have f: "frame_typ (header_frame 9 ''nope'') = headerFrameType"
    by (simp add: header_frame_def)
  from loopRead_frame_unknown_method_Header
         [OF three_accepted_directory(1) f three_accepted_directory(2), of bytes_env]
  show ?thesis
    by (simp add: three_accepted_facts(3) three_accepted_directory(3,4))
qed

text \<open>
  A fresh server reads a Header frame for a method the directory lacks: the write channel
  stays empty, so no Trailer has been emitted.  (The turn of the loop ends in the nil
  dereference of \<^verbatim>\<open>MethodInfo(fr.method).StreamingMode()\<close>.)
\<close>

theorem unknown_method_Header_counterexample:
  "loopRead_frame bytes_env server0 (header_frame 1 ''nope'') = (Panics nil_dereference, server0)
   \<and> buf (wchannel (snd (loopRead_frame bytes_env server0 (header_frame 1 ''nope'')))) = []"
  by (simp add: loopRead_frame_def server0_def newTransport_def header_frame_def MethodInfo_def
      echo_sinfo_def make_chan_def)

lemma streamRecv_keeps_transport:
  assumes "streamRecv env t i data = Some (r, t')"
  shows "kind t' = kind t \<and> conn t' = conn t \<and> wchannel t' = wchannel t \<and> spipe t' = spipe t
       \<and> scache t' = scache t \<and> lastActive t' = lastActive t
       \<and> (\<forall>j. j \<noteq> i \<longrightarrow> streams t' j = streams t j)"
  using assms
  by (auto simp: streamRecv_def Let_def
      split: option.splits outcome.splits prod.splits sum.splits any.splits)

lemma streamRecv_never_reports_decode_error:
  assumes "loadStreamIO t i = Some s" "exception s = None" "length (cache s) = 1"
    and "queue (pipe s) = m # ms" "msg_exception m = None"
    and "DecodePayload env (msg_payload m) = Inl err"
  shows "map_option fst (streamRecv env t i (FastCodec d0)) = Some (Returns (None, None))"
  using assms
  by (simp add: streamRecv_def streamIO_output_def Read_pos Let_def)

lemma client_with_data_eq:
  "client_with_data =
     client0\<lparr>streams := [1 \<mapsto> (newStreamIO (echo_stream 1))
                 \<lparr>pipe := \<lparr>queue = [\<lparr>msg_payload = [1, 2, 3], msg_exception = None\<rparr>], closed = False\<rparr>\<rparr>],
             lastActive := Some 2\<rparr>"
  by (simp add: client_with_data_def loopRead_frame_def data_frame_def storeStreamIO_def
      loadStreamIO_def echo_stream_def streamIO_input_def Write_def Add_def newStreamIO_def
      NewPipe_def NewQueueWithLocker_def client0_def newTransport_def)

text \<open>
  C2 at a concrete input.  Stream 1 is registered, its pipe yields the payload
  \<^verbatim>\<open>[1, 2, 3]\<close>, the codec fails on it, and \<^verbatim>\<open>streamRecv\<close> returns the nil error: the
  error of \<^verbatim>\<open>DecodePayload\<close> is lost.  The transport is left as it was but for the
  consumed message.
\<close>

theorem streamRecv_returns_nil_on_decode_error:
  "DecodePayload failing_decode_env [1, 2, 3] = Inl (ErrorString ''decode failed'')
   \<and> streamRecv failing_decode_env client_with_data 1 (FastCodec []) =
       Some (Returns (None, None),
             client0\<lparr>streams := [1 \<mapsto> (newStreamIO (echo_stream 1))
                         \<lparr>cache := [\<lparr>msg_payload = [1, 2, 3], msg_exception = None\<rparr>]\<rparr>],
                     lastActive := Some 2\<rparr>)"
  by (simp add: client_with_data_eq streamRecv_def loadStreamIO_def streamIO_output_def
      newStreamIO_def Read_pos failing_decode_env_def bytes_env_def zero_msg_def NewPipe_def
      NewQueueWithLocker_def client0_def newTransport_def)

text \<open>
  C3, as the code has it.  Once the write channel is closed, \<^verbatim>\<open>writeFrame\<close> never returns a
  Closed error: it returns the error of \<^verbatim>\<open>EncodePayload\<close> when the payload does not encode,
  and otherwise the send on the closed channel panics.  The transport is unchanged.
\<close>

theorem writeFrame_on_closed_wchannel:
  assumes "chan_closed (wchannel t)"
  shows "writeFrame env t smeta ftype data =
           (case data of
              None \<Rightarrow> (Panics ''send on closed channel'', t)
            | Some d \<Rightarrow>
                (case EncodePayload env d of
                   Inl err \<Rightarrow> (Returns (Some err), t)
                 | Inr pl \<Rightarrow> (Panics ''send on closed channel'', t)))"
  using assms by (simp add: writeFrame_def chan_send_def split: option.split sum.split)

lemma chan_closed_after_Close: "chan_closed (wchannel (snd (transport_Close server0)))"
  by (simp add: transport_Close_def server0_def newTransport_def make_chan_def chan_close_def
      conn_Close_def Let_def)

theorem writeFrame_on_closed_wchannel_witness:
  "writeFrame bytes_env (snd (transport_Close server0))
       \<lparr>sid = 1, method = ''echo'', meta = [], header = [], trailer = []\<rparr> dataFrameType (Some [1, 2, 3]) =
     (Panics ''send on closed channel'', snd (transport_Close server0))"
  using writeFrame_on_closed_wchannel [OF chan_closed_after_Close, of bytes_env
      "\<lparr>sid = 1, method = ''echo'', meta = [], header = [], trailer = []\<rparr>" dataFrameType
      "Some [1, 2, 3]"]
  by (simp add: bytes_env_def)

theorem writeFrame_after_Close_counterexample:
  "fst (writeFrame bytes_env (snd (transport_Close client0))
          \<lparr>sid = 1, method = ''echo'', meta = [], header = [], trailer = []\<rparr> trailerFrameType None) =
     Panics ''send on closed channel''"
  by (simp add: writeFrame_def chan_send_def transport_Close_def client0_def newTransport_def
      make_chan_def chan_close_def conn_Close_def Let_def)

text \<open>
  C4, as the code has it.  On a transport whose write channel is open, \<^verbatim>\<open>Close\<close> closes the
  accept pipe, closes the write channel and closes the connection, and returns the
  connection's answer.  A second \<^verbatim>\<open>Close\<close> does not succeed: after closing the closed
  accept pipe again it panics on \<^verbatim>\<open>close(t.wchannel)\<close>, and the state stays as the first
  call left it.
\<close>

theorem transport_Close_once_then_panics:
  assumes "\<not> chan_closed (wchannel t)"
  shows "transport_Close t =
           (Returns (conn_close_err (conn t)),
            t\<lparr>spipe := (spipe t)\<lparr>closed := True\<rparr>,
               wchannel := (wchannel t)\<lparr>chan_closed := True\<rparr>,
               conn := (conn t)\<lparr>conn_closed := True\<rparr>\<rparr>)
       \<and> transport_Close (snd (transport_Close t)) =
           (Panics ''close of closed channel'', snd (transport_Close t))"
  using assms
  by (simp add: transport_Close_def chan_close_def conn_Close_def Close_def Let_def)

theorem transport_Close_witness:
  "transport_Close server0 =
     (Returns None,
      server0\<lparr>spipe := \<lparr>queue = [], closed = True\<rparr>,
              wchannel := \<lparr>buf = [], cap = 32, chan_closed = True\<rparr>,
              conn := \<lparr>conn_closed = True, conn_deadline = Some Hour, conn_close_err = None\<rparr>\<rparr>)"
proof -
  have "\<not> chan_closed (wchannel server0)"
    by (simp add: server0_def newTransport_def make_chan_def)
  from transport_Close_once_then_panics [OF this] show ?thesis
    by (simp add: server0_def newTransport_def make_chan_def fresh_conn_def NewPipe_def
        NewQueueWithLocker_def frameChanSize_def)
qed

theorem transport_Close_twice_counterexample:
  "fst (transport_Close (snd (transport_Close server0))) = Panics ''close of closed channel''"
  by (simp add: transport_Close_def chan_close_def conn_Close_def Close_def Let_def
      server0_def newTransport_def make_chan_def)

lemma sint_succ_int32:
  "sint (g + 1 :: int32) = (if sint g = 2147483647 then - 2147483648 else sint g + 1)"
proof -
  have lo: "- 2147483648 \<le> sint g" using sint_ge [of g] by simp
  have hi: "sint g < 2147483648" using sint_lt [of g] by simp
  have s: "sint (g + 1) = signed_take_bit 31 (sint g + 1)"
    by (simp add: sint_word_ariths)
  show ?thesis
  proof (cases "sint g = 2147483647")
    case True
    then show ?thesis by (simp add: s)
  next
    case False
    with lo hi have "- (2 ^ 31) \<le> sint g + 1" "sint g + 1 < 2 ^ 31" by simp_all
    then have "signed_take_bit 31 (sint g + 1) = sint g + 1"
      by (simp add: signed_take_bit_int_eq_self)
    with False show ?thesis by (simp add: s)
  qed
qed

text \<open>
  C5, as the code has it.  On a client transport (method in the directory, room in the
  open write channel) \<^verbatim>\<open>newStream\<close> always returns a stream, whose sid is the shared
  counter plus one in 32-bit two's complement: one more than before, except that
  \<open>2147483647\<close> is followed by \<open>-2147483648\<close>.  There is no exhaustion error.
\<close>

theorem transport_newStream_sid_wraps:
  assumes "kind t = clientTransport" "MethodInfo (sinfo t) m = Some mi"
    and "\<not> chan_closed (wchannel t)" "length (buf (wchannel t)) < cap (wchannel t)"
  shows "fst (transport_newStream env g t m h) =
           Returns (Inr \<lparr>sid = g + 1, method = m, meta = [], header = h, trailer = [],
                         mode = streamingMode mi\<rparr>)
       \<and> fst (snd (transport_newStream env g t m h)) = g + 1
       \<and> sint (g + 1) = (if sint g = 2147483647 then - 2147483648 else sint g + 1)"
  using assms
  by (simp add: transport_newStream_def newStream_eq writeFrame_def chan_send_def
      storeStreamIO_def sint_succ_int32 Let_def)

lemma client0_ready:
  "kind client0 = clientTransport"
  "MethodInfo (sinfo client0) ''echo'' = Some \<lparr>streamingMode = StreamingBidirectional, oneway = False\<rparr>"
  "\<not> chan_closed (wchannel client0)"
  "length (buf (wchannel client0)) < cap (wchannel client0)"
  by (simp_all add: client0_def newTransport_def MethodInfo_def echo_sinfo_def make_chan_def
      frameChanSize_def)

theorem transport_newStream_first_sid_witness:
  "fst (transport_newStream bytes_env 0 client0 ''echo'' []) = Returns (Inr (echo_stream 1))
   \<and> fst (snd (transport_newStream bytes_env 0 client0 ''echo'' [])) = 1"
  using transport_newStream_sid_wraps [OF client0_ready, of bytes_env 0 "[]"]
  by (simp add: echo_stream_def)

theorem transport_newStream_overflow_counterexample:
  "fst (transport_newStream bytes_env 2147483647 client0 ''echo'' []) =
     Returns (Inr (echo_stream (2147483647 + 1)))
   \<and> sint (sid (echo_stream (2147483647 + 1))) = - 2147483648"
  by (simp add: transport_newStream_def newStream_eq writeFrame_def chan_send_def
      storeStreamIO_def Let_def echo_stream_def client0_def newTransport_def
      make_chan_def frameChanSize_def MethodInfo_def echo_sinfo_def)

subsection \<open>streamIO\<close>

lemma filter_update_count:
  "i < length xs \<Longrightarrow>
     length (filter P (xs[i := y])) + (if P (xs ! i) then 1 else 0) =
     length (filter P xs) + (if P y then 1 else 0)"
proof (induction xs arbitrary: i)
  case Nil
  then show ?case by simp
next
  case (Cons x xs)
  then show ?case by (cases i) auto
qed

lemma calling_update:
  "i < length gs \<Longrightarrow>
     calling (gs[i := g']) + (if at (gs ! i) = Some runCloseCallback_call then 1 else 0) =
     calling gs + (if at g' = Some runCloseCallback_call then 1 else 0)"
  unfolding calling_def by (rule filter_update_count)

lemma AddInt32_eofFlag_keeps:
  "AddInt32_eofFlag s = (s', nxt) \<Longrightarrow>
     callbackFlag s' = callbackFlag s \<and> nxt \<noteq> Some runCloseCallback_call"
  by (auto simp: AddInt32_eofFlag_def Let_def split: if_splits)

lemma calling_split:
  assumes "i < length gs"
  shows "calling gs = others_calling gs i + (if at (gs ! i) = Some runCloseCallback_call then 1 else 0)"
    and "calling (gs[i := g']) = others_calling gs i + (if at g' = Some runCloseCallback_call then 1 else 0)"
proof -
  show "calling gs = others_calling gs i + (if at (gs ! i) = Some runCloseCallback_call then 1 else 0)"
    using calling_update [OF assms, of "\<lparr>at = None, todo = []\<rparr>"]
    by (simp add: others_calling_def)
  have "i < length (gs[i := g'])" using assms by simp
  from calling_update [OF this, of "\<lparr>at = None, todo = []\<rparr>"]
  show "calling (gs[i := g']) = others_calling gs i + (if at g' = Some runCloseCallback_call then 1 else 0)"
    using assms by (simp add: others_calling_def)
qed

lemma exec_latch:
  assumes "exec sc c (s, cbs) = ((s', cbs'), nxt)"
    and "length cbs + k + (if c = runCloseCallback_call then 1 else 0)
           \<le> (if callbackFlag s = 0 then 0 else 1)"
  shows "length cbs' + k + (if nxt = Some runCloseCallback_call then 1 else 0)
           \<le> (if callbackFlag s' = 0 then 0 else 1)"
  using assms
  by (cases c)
     (auto simp: Let_def dest: AddInt32_eofFlag_keeps split: if_splits option.splits prod.splits)

lemma step_latch_inv:
  assumes inv: "latch_inv sys"
  shows "latch_inv (step sc sys i)"
proof (cases "i < length (goroutines sys)")
  case False
  then show ?thesis using inv by (simp add: step_def)
next
  case True
  let ?gs = "goroutines sys"
  let ?g = "?gs ! i"
  note split = calling_split [OF True]
  show ?thesis
  proof (cases "at ?g")
    case None
    show ?thesis
    proof (cases "todo ?g")
      case Nil
      then show ?thesis using inv None True by (simp add: step_def)
    next
      case (Cons c cs)
      have "entry c \<noteq> runCloseCallback_call" by (cases c) simp_all
      then show ?thesis
        using inv None True Cons split(1) split(2) [of "\<lparr>at = Some (entry c), todo = cs\<rparr>"]
        by (simp add: step_def latch_inv_def)
    qed
  next
    case (Some c)
    obtain s' cbs' nxt where e: "exec sc c (sio sys, invoked sys) = ((s', cbs'), nxt)"
      by (metis prod.exhaust)
    have pre: "length (invoked sys) + others_calling ?gs i + (if c = runCloseCallback_call then 1 else 0)
                 \<le> (if callbackFlag (sio sys) = 0 then 0 else 1)"
      using inv split(1) Some by (simp add: latch_inv_def)
    from exec_latch [OF e pre]
    show ?thesis
      using True Some e split(2) [of "?g\<lparr>at := nxt\<rparr>"]
      by (simp add: step_def latch_inv_def Let_def)
  qed
qed

lemma run_latch_inv: "latch_inv sys \<Longrightarrow> latch_inv (run sc sys schedule)"
  unfolding run_def by (induction schedule arbitrary: sys) (simp_all add: step_latch_inv)

lemma start_latch_inv: "latch_inv (start s cb calls)"
  by (simp add: latch_inv_def start_def newStreamIO_def calling_def filter_empty_conv o_def)

text \<open>
  C8.  Whatever calls of \<^verbatim>\<open>closeSend\<close>, \<^verbatim>\<open>closeRecv\<close>, \<^verbatim>\<open>close\<close> and \<^verbatim>\<open>cancel\<close> the
  goroutines make on one streamIO, in whatever number and order, and however the scheduler
  interleaves their atomic steps, the close callback is invoked at most once.
\<close>

theorem close_callback_invoked_at_most_once:
  "length (invoked (run sc (start s cb calls) schedule)) \<le> 1"
proof -
  have "latch_inv (run sc (start s cb calls) schedule)"
    by (rule run_latch_inv) (rule start_latch_inv)
  then show ?thesis by (simp add: latch_inv_def split: if_splits)
qed

text \<open>And it is invoked: \<^verbatim>\<open>closeSend\<close> on one goroutine and \<^verbatim>\<open>closeRecv\<close> on another.\<close>

lemma close_callback_is_invoked:
  "invoked (run id (start (echo_stream 1) (Some 7) [[Call_closeSend], [Call_closeRecv]])
              [0, 1, 1, 0, 1, 1, 1]) = [7]"
  by code_simp

end
